theory Spec2Isabelle
  imports Complex_Main
begin

section \<open>Time\<close>

text \<open>
  A \<^verbatim>\<open>datetime\<close> is modelled as an integer number of seconds since the epoch. Every
  instant that reaches the functions below has been cut to whole seconds by the source
  (\<^verbatim>\<open>now.replace(microsecond=0)\<close>, \<^verbatim>\<open>time_str[:19]\<close>), so
  \<^verbatim>\<open>int(delta.total_seconds())\<close> is the plain difference and
  \<^verbatim>\<open>replace(microsecond=0)\<close> is the identity. Python's \<^verbatim>\<open>datetime\<close> has no leap
  seconds, so the \<^verbatim>\<open>second\<close> field of a UTC instant is the value modulo 60.

  A local (timezone-aware) \<^verbatim>\<open>datetime\<close> obtained by \<^verbatim>\<open>astimezone\<close> carries a fixed UTC
  offset from then on: \<^verbatim>\<open>replace\<close> and \<^verbatim>\<open>timedelta\<close> arithmetic act on its wall-clock
  fields and keep the \<^verbatim>\<open>tzinfo\<close>. It is modelled by its wall-clock seconds.
\<close>

type_synonym time = int

definition second_of :: "time \<Rightarrow> int" where
  "second_of t = t mod 60"

text \<open>\<^verbatim>\<open>t.replace(second=0, microsecond=0)\<close>\<close>

definition replace_second0 :: "time \<Rightarrow> time" where
  "replace_second0 t = t - t mod 60"

text \<open>\<^verbatim>\<open>t.replace(minute=0, second=0, microsecond=0)\<close>\<close>

definition replace_minute0 :: "time \<Rightarrow> time" where
  "replace_minute0 t = t - t mod 3600"

text \<open>\<^verbatim>\<open>t.replace(hour=0, minute=0, second=0, microsecond=0)\<close> on wall-clock seconds\<close>

definition replace_midnight :: "time \<Rightarrow> time" where
  "replace_midnight t = t - t mod 86400"

text \<open>\<^verbatim>\<open>t.replace(hour=23, minute=59, second=59, microsecond=0)\<close> on wall-clock seconds\<close>

definition replace_235959 :: "time \<Rightarrow> time" where
  "replace_235959 t = t - t mod 86400 + 86399"

section \<open>config.py\<close>

definition get_config_value :: "('k \<rightharpoonup> 'v) \<Rightarrow> 'k \<Rightarrow> 'v \<Rightarrow> 'v" where
  "get_config_value config key default_value =
     (case config key of Some v \<Rightarrow> v | None \<Rightarrow> default_value)"

section \<open>vuegraf.py: the history settings of \<^verbatim>\<open>main\<close>\<close>

text \<open>
  \<^verbatim>\<open>max_history_days = config.get_config_value(cfg, 'maxHistoryDays', 720)\<close>,
  \<^verbatim>\<open>history_days = min(args.historydays, max_history_days)\<close>,
  \<^verbatim>\<open>history = history_days > 0\<close>.
\<close>

definition max_history_days :: "(string \<rightharpoonup> int) \<Rightarrow> int" where
  "max_history_days cfg = get_config_value cfg ''maxHistoryDays'' 720"

definition history_days :: "(string \<rightharpoonup> int) \<Rightarrow> int \<Rightarrow> int" where
  "history_days cfg args_historydays = min args_historydays (max_history_days cfg)"

definition history :: "(string \<rightharpoonup> int) \<Rightarrow> int \<Rightarrow> bool" where
  "history cfg args_historydays = (history_days cfg args_historydays > 0)"

section \<open>datapoint.py: \<^verbatim>\<open>get_last_db_timestamp\<close>\<close>

text \<open>
  The sink answers "when was the last point of this series stored". The series is selected
  by the station filter (the device name, present only when \<^verbatim>\<open>add_station_field\<close> is set),
  the channel name and the point-type tag. The answer is the parsed
  \<^verbatim>\<open>db_last_record_time\<close>, or \<^verbatim>\<open>None\<close> when the query returns nothing
  (\<^verbatim>\<open>len(time_str) == 0\<close>). Both Influx versions feed the same value into the
  window arithmetic that follows.
\<close>

type_synonym sink = "string option \<Rightarrow> string \<Rightarrow> string \<Rightarrow> time option"

definition minute_window :: "time \<Rightarrow> time \<times> time \<times> bool \<Rightarrow> time \<times> time \<times> bool" where
  "minute_window db_last_record_time w =
     (case w of (foo_start_time, foo_stop_time, foo_history_flag) \<Rightarrow>
       if db_last_record_time < foo_stop_time - (120 + second_of foo_stop_time) then
         let s1 = db_last_record_time + 60;
             s2 = (if foo_stop_time - s1 > 604800 then foo_stop_time - 604800 else s1);
             e2 = (if foo_stop_time - s2 > 43200 then s2 + 43200 else foo_stop_time)
         in (s2, e2, True)
       else (foo_start_time, foo_stop_time, foo_history_flag))"

definition second_window :: "int \<Rightarrow> time \<Rightarrow> time \<times> time \<times> bool \<Rightarrow> time \<times> time \<times> bool" where
  "second_window detailed_interval_secs db_last_record_time w =
     (case w of (foo_start_time, foo_stop_time, foo_history_flag) \<Rightarrow>
       if db_last_record_time < foo_start_time - 2 then
         let s1 = db_last_record_time + 1 in
         if foo_stop_time - s1 > 3600 then
           if detailed_interval_secs \<ge> 3600 then (foo_stop_time - 3600, foo_stop_time, True)
           else
             let s2 = (if foo_stop_time - s1 > 10800 then foo_stop_time - 10800 else s1);
                 e2 = (if foo_stop_time - s2 > 3600 then s2 + 3600 else foo_stop_time)
             in (s2, e2, True)
         else (s1, foo_stop_time, True)
       else (foo_start_time, foo_stop_time, foo_history_flag))"

text \<open>
  With a stored record the source runs two independent \<^verbatim>\<open>if\<close> statements (minute, then
  second); without one it runs an \<^verbatim>\<open>if\<close>/\<^verbatim>\<open>elif\<close>.
\<close>

definition get_last_db_timestamp ::
  "sink \<Rightarrow> string \<Rightarrow> string \<Rightarrow> string \<Rightarrow> time \<Rightarrow> time \<Rightarrow> bool \<Rightarrow> bool \<Rightarrow>
   string \<Rightarrow> string \<Rightarrow> int \<Rightarrow> time \<times> time \<times> bool" where
  "get_last_db_timestamp db device_name chan_name point_type foo_start_time foo_stop_time
       foo_history_flag add_station_field tag_value_minute tag_value_second
       detailed_interval_secs =
     (case db (if add_station_field then Some device_name else None) chan_name point_type of
        Some db_last_record_time \<Rightarrow>
          let w0 = (foo_start_time, foo_stop_time, foo_history_flag);
              w1 = (if point_type = tag_value_minute
                    then minute_window db_last_record_time w0 else w0)
          in (if point_type = tag_value_second
              then second_window detailed_interval_secs db_last_record_time w1 else w1)
      | None \<Rightarrow>
          if point_type = tag_value_minute then
            (foo_start_time - 604800, foo_start_time - 604800 + 43200, True)
          else if point_type = tag_value_second then
            (foo_start_time - 10800, foo_start_time - 10800 + 3600, True)
          else (foo_start_time, foo_stop_time, foo_history_flag))"

text \<open>The limits of the decision table, per granularity.\<close>

definition max_fetch_minute :: int where "max_fetch_minute = 43200"
definition max_lookback_minute :: int where "max_lookback_minute = 604800"
definition max_fetch_second :: int where "max_fetch_second = 3600"
definition max_lookback_second :: "int \<Rightarrow> int" where
  "max_lookback_second detailed_interval_secs =
     (if detailed_interval_secs \<ge> 3600 then 3600 else 10800)"

text \<open>Concrete sinks used in the examples below.\<close>

definition db_empty :: sink where
  "db_empty station chan_name point_type = None"

definition db_at :: "time \<Rightarrow> sink" where
  "db_at t station chan_name point_type = Some t"

section \<open>vuegraf.py: the historical backfill loop of \<^verbatim>\<open>main\<close>\<close>

text \<open>
  \<^verbatim>\<open>stop_time.astimezone(account_time_zone)\<close>: the zone gives the UTC offset in force at
  an instant; the result is the wall-clock reading, which keeps that offset afterwards.
\<close>

definition astimezone :: "(time \<Rightarrow> int) \<Rightarrow> time \<Rightarrow> time" where
  "astimezone tz t = t + tz t"

text \<open>
  The loop \<^verbatim>\<open>while history_start_time <= stop_time_history\<close>, run to completion (no
  cancellation, no exception from the walker or the sink). It returns the sub-windows
  \<^verbatim>\<open>(history_start_time, history_end_time)\<close> handed to the walker, in order.
\<close>

function history_windows :: "time \<Rightarrow> time \<Rightarrow> (time \<times> time) list" where
  "history_windows history_start_time stop_time_history =
     (if history_start_time \<le> stop_time_history then
        let history_end_time =
              replace_235959 (min (history_start_time + 20 * 86400) stop_time_history)
        in (history_start_time, history_end_time)
           # history_windows (replace_midnight (history_end_time + 86400)) stop_time_history
      else [])"
  by pat_completeness auto
termination
proof (relation "measure (\<lambda>(s, e). nat (e - s + 1))")
  show "wf (measure (\<lambda>(s, e). nat (e - s + 1)))" by simp
next
  fix history_start_time stop_time_history x :: int
  assume le: "history_start_time \<le> stop_time_history"
    and x: "x = replace_235959 (min (history_start_time + 20 * 86400) stop_time_history)"
  have "min (history_start_time + 20 * 86400) stop_time_history \<le> x"
    unfolding x replace_235959_def
    using pos_mod_bound [of 86400 "min (history_start_time + 20 * 86400) stop_time_history"]
    by linarith
  moreover have "replace_midnight (x + 86400) = x + 1"
    unfolding x replace_midnight_def replace_235959_def
    by (simp add: minus_mod_eq_mult_div)
  ultimately have "history_start_time < replace_midnight (x + 86400)"
    using le by simp
  then show "((replace_midnight (x + 86400), stop_time_history),
              (history_start_time, stop_time_history)) \<in> measure (\<lambda>(s, e). nat (e - s + 1))"
    using le by simp
qed

text \<open>
  The windows of one historical backfill: \<open>days\<close> is the value of \<^verbatim>\<open>history_days\<close>,
  \<^verbatim>\<open>datetime.timedelta(n)\<close> is \<open>n\<close> days.
\<close>

definition history_batches :: "(time \<Rightarrow> int) \<Rightarrow> int \<Rightarrow> time \<Rightarrow> (time \<times> time) list" where
  "history_batches account_time_zone days stop_time =
     (let stop_time_history = astimezone account_time_zone stop_time;
          history_start_time = replace_midnight (stop_time_history - days * 86400)
      in history_windows history_start_time stop_time_history)"

text \<open>The end of the sub-window that starts at \<open>hs\<close>.\<close>

definition history_end :: "time \<Rightarrow> time \<Rightarrow> time" where
  "history_end hs sth = replace_235959 (min (hs + 20 * 86400) sth)"

definition utc :: "time \<Rightarrow> int" where
  "utc t = 0"

definition utc_minus_5 :: "time \<Rightarrow> int" where
  "utc_minus_5 t = - 18000"

section \<open>datapoint.py: \<^verbatim>\<open>create_data_point\<close>\<close>

text \<open>
  A measurement point. The two encodings selected by \<^verbatim>\<open>influx_version\<close> (a client
  \<^verbatim>\<open>Point\<close> object, a plain dictionary) carry the same measurement name
  \<^verbatim>\<open>energy_usage\<close>, the same tags, field and time, so one record stands for both. The tag
  \<^verbatim>\<open>device_name\<close> holds the channel name; the device name goes into \<^verbatim>\<open>station_name\<close>
  when \<^verbatim>\<open>add_station_field\<close> is set. The time is optional because the hour and day branch
  of the walker passes \<^verbatim>\<open>history_start_time\<close> on as it is.
\<close>

record data_point =
  dp_account_name :: string
  dp_device_name :: string
  dp_tag_name :: string
  dp_detailed :: string
  dp_usage :: real
  dp_time :: "time option"
  dp_station_name :: "string option"

definition create_data_point ::
  "string \<Rightarrow> string \<Rightarrow> string \<Rightarrow> real \<Rightarrow> time option \<Rightarrow> string \<Rightarrow> int \<Rightarrow> string \<Rightarrow> bool
   \<Rightarrow> data_point" where
  "create_data_point account_name device_name chan_name watts timestamp detailed
       influx_version tag_name add_station_field =
     \<lparr> dp_account_name = account_name, dp_device_name = chan_name, dp_tag_name = tag_name,
       dp_detailed = detailed, dp_usage = watts, dp_time = timestamp,
       dp_station_name = (if add_station_field then Some device_name else None) \<rparr>"

section \<open>datapoint.py: \<^verbatim>\<open>extract_data_points\<close>\<close>

text \<open>
  The scales of the metering API that the walker requests (\<^verbatim>\<open>Scale.SECOND\<close> and so on);
  the unit is always kWh.
\<close>

datatype scale = SECOND | MINUTE | HOUR | DAY

text \<open>
  The usage tree returned by the metering API: a device has an ordered dictionary of
  channels keyed by channel number, a channel has a usage value (\<^verbatim>\<open>None\<close> when there is no
  sample) and an ordered dictionary of nested devices.
\<close>

datatype device = Device (device_gid: nat) (channels: "(string \<times> channel) list")
  and channel = Channel (chan_device_gid: nat) (channel_num: string) (chan_usage: "real option")
      (nested_devices: "(nat \<times> device) list")

text \<open>
  A channel is handed to the collaborators by its device id and channel number. The
  walker's state is the output list \<^verbatim>\<open>usage_data_points\<close> together with the log of the
  chart requests it has sent to the metering API, in order; the log is what lets a
  theorem say that a loop was or was not entered.
\<close>

type_synonym chan_ref = "nat \<times> string"
type_synonym request = "chan_ref \<times> time \<times> time \<times> scale"
type_synonym buffer = "data_point list \<times> request list"

text \<open>
  A call of the walker either returns or is left by an exception. The output list is
  mutated in place, so in both cases the points appended so far stay in it.
\<close>

datatype py_error = AttributeError | FetchError

datatype outcome = Returned buffer | Raised py_error buffer


text \<open>
  Inside \<^verbatim>\<open>extract_data_points\<close> the name \<^verbatim>\<open>device\<close> is the parameter: it shadows the
  module \<^verbatim>\<open>src.vuegraf.device\<close> imported at line 9. Lines 216 and 228 therefore look
  \<^verbatim>\<open>lookup_device_name\<close> and \<^verbatim>\<open>lookup_channel_name\<close> up on the usage device that
  \<^verbatim>\<open>main\<close> passes in. A usage device of the metering client has the attributes
  \<^verbatim>\<open>device_gid\<close>, \<^verbatim>\<open>timestamp\<close> and \<^verbatim>\<open>channels\<close> and no method of either name, so both
  lookups find nothing and Python raises \<^verbatim>\<open>AttributeError\<close>.
\<close>

definition getattr_lookup_device_name :: "device \<Rightarrow> (nat \<Rightarrow> string) option" where
  "getattr_lookup_device_name d = None"

definition getattr_lookup_channel_name :: "device \<Rightarrow> (chan_ref \<Rightarrow> string) option" where
  "getattr_lookup_channel_name d = None"

text \<open>
  The parameters of \<^verbatim>\<open>extract_data_points\<close> other than the device and the output list.
  \<^verbatim>\<open>get_chart_usage\<close> is \<^verbatim>\<open>account['vue'].get_chart_usage\<close>: it returns the usage
  sequence and the start the API reports, and is taken to return. \<^verbatim>\<open>db\<close> stands for
  the query client of either Influx version.
\<close>

record extract_args =
  account_name :: string
  get_chart_usage :: "chan_ref \<Rightarrow> time \<Rightarrow> time \<Rightarrow> scale \<Rightarrow> real option list \<times> time"
  db :: sink
  stop_time :: time
  detailed_start_time :: time
  collect_details :: bool
  detailed_seconds_enabled :: bool
  detailed_hours_enabled :: bool
  influx_version :: int
  tag_name :: string
  tag_value_minute :: string
  tag_value_second :: string
  tag_value_hour :: string
  tag_value_day :: string
  add_station_field :: bool
  detailed_interval_secs :: int
  account_time_zone :: "time \<Rightarrow> int"
  point_type :: "string option"
  history_start_time :: "time option"
  history_end_time :: "time option"

definition excluded_detail_channel_numbers :: "string list" where
  "excluded_detail_channel_numbers = [''Balance'', ''TotalUsage'']"

text \<open>
  The four sample loops of the source (minute catch-up, seconds, historical hours,
  historical days) have one shape: walk the usage sequence with an index, skip a
  \<^verbatim>\<open>None\<close> entry after advancing the index, append a point for any other entry and
  advance the index. They differ in the point they build, given here as \<^verbatim>\<open>mk\<close>.
\<close>

fun usage_points :: "(nat \<Rightarrow> real \<Rightarrow> data_point) \<Rightarrow> nat \<Rightarrow> real option list \<Rightarrow> data_point list" where
  "usage_points mk index [] = []"
| "usage_points mk index (None # usage) = usage_points mk (index + 1) usage"
| "usage_points mk index (Some kwh_usage # usage) =
     mk index kwh_usage # usage_points mk (index + 1) usage"

text \<open>
  The points of the four loops. Usage values are real numbers in place of Python floats.
  The day timestamp is taken in the account's zone, moved by whole days on the wall clock,
  set to 23:59:59 and converted back with the same offset.
\<close>

definition new_point :: "extract_args \<Rightarrow> string \<Rightarrow> string \<Rightarrow> real \<Rightarrow> time option \<Rightarrow> string \<Rightarrow> data_point" where
  "new_point a device_name chan_name watts timestamp detailed =
     create_data_point (account_name a) device_name chan_name watts timestamp detailed
       (influx_version a) (tag_name a) (add_station_field a)"

definition minute_point :: "extract_args \<Rightarrow> string \<Rightarrow> string \<Rightarrow> time \<Rightarrow> nat \<Rightarrow> real \<Rightarrow> data_point" where
  "minute_point a device_name chan_name usage_start_time index kwh_usage =
     new_point a device_name chan_name (real_of_int (60 * 1000) * kwh_usage)
       (Some (replace_second0 usage_start_time + 60 * int index)) (tag_value_minute a)"

definition second_point :: "extract_args \<Rightarrow> string \<Rightarrow> string \<Rightarrow> time \<Rightarrow> nat \<Rightarrow> real \<Rightarrow> data_point" where
  "second_point a device_name chan_name usage_start_time index kwh_usage =
     new_point a device_name chan_name (real_of_int (60 * 60 * 1000) * kwh_usage)
       (Some (usage_start_time + int index)) (tag_value_second a)"

definition hour_point :: "extract_args \<Rightarrow> string \<Rightarrow> string \<Rightarrow> time \<Rightarrow> nat \<Rightarrow> real \<Rightarrow> data_point" where
  "hour_point a device_name chan_name usage_start_time index kwh_usage =
     new_point a device_name chan_name (kwh_usage * 1000)
       (Some (replace_minute0 usage_start_time + 3600 * int index)) (tag_value_hour a)"

definition day_point :: "extract_args \<Rightarrow> string \<Rightarrow> string \<Rightarrow> time \<Rightarrow> nat \<Rightarrow> real \<Rightarrow> data_point" where
  "day_point a device_name chan_name usage_start_time index kwh_usage =
     new_point a device_name chan_name (kwh_usage * 1000)
       (Some (replace_235959 (astimezone (account_time_zone a) usage_start_time + 86400 * int index)
              - account_time_zone a usage_start_time))
       (tag_value_day a)"

text \<open>
  The loop \<^verbatim>\<open>while no_data_flag\<close> (lines 244-274). It need not end for every window
  (a window whose stop is not after its start never moves forward), so it is a partial
  function: \<^verbatim>\<open>None\<close> stands for a loop that never returns.
\<close>

partial_function (option) minute_catch_up ::
  "extract_args \<Rightarrow> string \<Rightarrow> string \<Rightarrow> chan_ref \<Rightarrow> time \<Rightarrow> time \<Rightarrow> buffer \<Rightarrow> buffer option" where
  "minute_catch_up a device_name chan_name chan minute_history_start_time stop_time_min buf =
     (case get_chart_usage a chan minute_history_start_time stop_time_min MINUTE of
        (usage, usage_start_time) \<Rightarrow>
          let no_data_flag = list_all (\<lambda>kwh_usage. kwh_usage = None) usage;
              buf1 = (fst buf @ usage_points (minute_point a device_name chan_name usage_start_time) 0 usage,
                      snd buf @ [(chan, minute_history_start_time, stop_time_min, MINUTE)])
          in if no_data_flag then
               if stop_time_min < replace_second0 (stop_time a) then
                 let foo_current_interval = stop_time_min - minute_history_start_time
                 in minute_catch_up a device_name chan_name chan
                      (min (minute_history_start_time + foo_current_interval)
                           (replace_second0 (stop_time a)))
                      (min (stop_time_min + foo_current_interval) (replace_second0 (stop_time a)))
                      buf1
               else Some buf1
             else Some buf1)"



text \<open>
  Lines 230-279: the minute point of a channel with a usage value.
\<close>

definition minute_step ::
  "extract_args \<Rightarrow> string \<Rightarrow> string \<Rightarrow> string \<Rightarrow> chan_ref \<Rightarrow> real option \<Rightarrow> buffer \<Rightarrow> buffer option" where
  "minute_step a device_name chan_name chan_num chan kwh_usage buf =
     (case kwh_usage of
        None \<Rightarrow> Some buf
      | Some kwh \<Rightarrow>
          (case point_type a of
             None \<Rightarrow>
               (case get_last_db_timestamp (db a) device_name chan_name (tag_value_minute a)
                       (stop_time a) (stop_time a) False (add_station_field a)
                       (tag_value_minute a) (tag_value_second a) (detailed_interval_secs a) of
                  (minute_history_start_time, stop_time_min, minute_history_enabled) \<Rightarrow>
                    if \<not> minute_history_enabled
                       \<or> chan_num \<in> set excluded_detail_channel_numbers then
                      Some (fst buf @ [new_point a device_name chan_name
                                         (real_of_int (60 * 1000) * kwh)
                                         (Some (replace_second0 (stop_time a)))
                                         (tag_value_minute a)],
                            snd buf)
                    else if chan_num \<notin> set excluded_detail_channel_numbers
                            \<and> history_start_time a = None then
                      minute_catch_up a device_name chan_name chan
                        minute_history_start_time stop_time_min buf
                    else Some buf)
           | Some pt \<Rightarrow>
               if pt = tag_value_day a \<or> pt = tag_value_hour a then
                 Some (fst buf @ [new_point a device_name chan_name (kwh * 1000)
                                    (history_start_time a) pt],
                       snd buf)
               else Some buf))"

text \<open>
  Lines 284-303: the seconds of the last detail interval, fetched once.
\<close>

definition second_step :: "extract_args \<Rightarrow> string \<Rightarrow> string \<Rightarrow> chan_ref \<Rightarrow> buffer \<Rightarrow> buffer" where
  "second_step a device_name chan_name chan buf =
     (if collect_details a \<and> detailed_seconds_enabled a \<and> history_start_time a = None then
        (case get_last_db_timestamp (db a) device_name chan_name (tag_value_second a)
                (detailed_start_time a) (stop_time a) (detailed_seconds_enabled a)
                (add_station_field a) (tag_value_minute a) (tag_value_second a)
                (detailed_interval_secs a) of
           (sec_history_start_time, stop_time_sec, second_history_enabled) \<Rightarrow>
             (case get_chart_usage a chan sec_history_start_time stop_time_sec SECOND of
                (usage, usage_start_time) \<Rightarrow>
                  (fst buf @ usage_points (second_point a device_name chan_name usage_start_time)
                              0 usage,
                   snd buf @ [(chan, sec_history_start_time, stop_time_sec, SECOND)])))
      else buf)"

text \<open>
  Lines 306-334: historical hours and days.
\<close>

definition history_step :: "extract_args \<Rightarrow> string \<Rightarrow> string \<Rightarrow> chan_ref \<Rightarrow> buffer \<Rightarrow> buffer" where
  "history_step a device_name chan_name chan buf =
     (case history_start_time a of
        None \<Rightarrow> buf
      | Some hs \<Rightarrow>
          (case history_end_time a of
             None \<Rightarrow> buf
           | Some he \<Rightarrow>
               (case get_chart_usage a chan hs he HOUR of
                  (usage, usage_start_time) \<Rightarrow>
                    (case get_chart_usage a chan hs he DAY of
                       (usage_d, usage_start_time_d) \<Rightarrow>
                         (fst buf
                            @ usage_points (hour_point a device_name chan_name usage_start_time)
                                0 usage
                            @ usage_points (day_point a device_name chan_name usage_start_time_d)
                                0 usage_d,
                          snd buf @ [(chan, hs, he, HOUR), (chan, hs, he, DAY)])))))"

text \<open>
  Lines 230-334: the body of the channel loop once the channel name is known. The
  \<^verbatim>\<open>continue\<close> of line 282 skips the second and history steps for an excluded channel.
\<close>

definition channel_body ::
  "extract_args \<Rightarrow> string \<Rightarrow> string \<Rightarrow> string \<Rightarrow> chan_ref \<Rightarrow> real option \<Rightarrow> buffer
   \<Rightarrow> buffer option" where
  "channel_body a device_name chan_name chan_num chan kwh_usage buf =
     (case minute_step a device_name chan_name chan_num chan kwh_usage buf of
        None \<Rightarrow> None
      | Some buf1 \<Rightarrow>
          if chan_num \<in> set excluded_detail_channel_numbers then Some buf1
          else Some (history_step a device_name chan_name chan
                       (second_step a device_name chan_name chan buf1)))"

text \<open>
  The walker (lines 216-334): the device name is looked up first; then, for every
  channel, the nested devices are walked, the channel name is looked up and the body
  runs. An exception ends the walk at once. \<^verbatim>\<open>None\<close> stands for a walk that never returns.
\<close>

function (sequential) extract_data_points :: "extract_args \<Rightarrow> device \<Rightarrow> buffer \<Rightarrow> outcome option"
  and extract_channels ::
    "extract_args \<Rightarrow> device \<Rightarrow> string \<Rightarrow> (string \<times> channel) list \<Rightarrow> buffer \<Rightarrow> outcome option"
  and extract_nested :: "extract_args \<Rightarrow> (nat \<times> device) list \<Rightarrow> buffer \<Rightarrow> outcome option"
where
  "extract_data_points a (Device gid chans) buf =
     (case getattr_lookup_device_name (Device gid chans) of
        None \<Rightarrow> Some (Raised AttributeError buf)
      | Some lookup_device_name \<Rightarrow>
          extract_channels a (Device gid chans) (lookup_device_name gid) chans buf)"
| "extract_channels a d device_name [] buf = Some (Returned buf)"
| "extract_channels a d device_name ((chan_num, Channel g n kwh_usage nested) # rest) buf =
     (case extract_nested a nested buf of
        None \<Rightarrow> None
      | Some (Raised e buf1) \<Rightarrow> Some (Raised e buf1)
      | Some (Returned buf1) \<Rightarrow>
          (case getattr_lookup_channel_name d of
             None \<Rightarrow> Some (Raised AttributeError buf1)
           | Some lookup_channel_name \<Rightarrow>
               (case channel_body a device_name (lookup_channel_name (g, n)) chan_num (g, n)
                       kwh_usage buf1 of
                  None \<Rightarrow> None
                | Some buf2 \<Rightarrow> extract_channels a d device_name rest buf2)))"
| "extract_nested a [] buf = Some (Returned buf)"
| "extract_nested a ((gid, nested_device) # ds) buf =
     (case extract_data_points a nested_device buf of
        None \<Rightarrow> None
      | Some (Raised e buf1) \<Rightarrow> Some (Raised e buf1)
      | Some (Returned buf1) \<Rightarrow> extract_nested a ds buf1)"
  by pat_completeness auto
termination
  by (relation "measure (\<lambda>x. case x of
          Inl (a, d, buf) \<Rightarrow> 2 * size d
        | Inr (Inl (a, d, device_name, chans, buf)) \<Rightarrow>
            2 * size_list (size_prod (\<lambda>x. 0) size) chans + 1
        | Inr (Inr (a, ds, buf)) \<Rightarrow> 2 * size_list (size_prod (\<lambda>x. 0) size) ds + 1)")
     simp_all

text \<open>
  What the body appends for an excluded channel (lines 230-282), written out for the
  statements below.
\<close>

definition excluded_points ::
  "extract_args \<Rightarrow> string \<Rightarrow> string \<Rightarrow> real option \<Rightarrow> data_point list" where
  "excluded_points a device_name chan_name kwh_usage =
     (case kwh_usage of
        None \<Rightarrow> []
      | Some kwh \<Rightarrow>
          (case point_type a of
             None \<Rightarrow> [new_point a device_name chan_name (kwh * 60 * 1000)
                        (Some (replace_second0 (stop_time a))) (tag_value_minute a)]
           | Some pt \<Rightarrow>
               if pt = tag_value_day a \<or> pt = tag_value_hour a
               then [new_point a device_name chan_name (kwh * 1000) (history_start_time a) pt]
               else []))"

text \<open>
  The pieces of the catch-up loop, named for the statements below: the window that
  follows a fetch without samples (lines 265-271), the test that a fetch has no sample,
  the points of a fetch, and the request logged for a window.
\<close>

definition advance_window :: "time \<Rightarrow> time \<times> time \<Rightarrow> time \<times> time" where
  "advance_window global_stop w =
     (min (fst w + (snd w - fst w)) global_stop, min (snd w + (snd w - fst w)) global_stop)"

definition no_samples :: "extract_args \<Rightarrow> chan_ref \<Rightarrow> time \<times> time \<Rightarrow> bool" where
  "no_samples a chan w =
     list_all (\<lambda>kwh_usage. kwh_usage = None) (fst (get_chart_usage a chan (fst w) (snd w) MINUTE))"

definition fetched_points ::
  "extract_args \<Rightarrow> string \<Rightarrow> string \<Rightarrow> chan_ref \<Rightarrow> time \<times> time \<Rightarrow> data_point list" where
  "fetched_points a device_name chan_name chan w =
     usage_points
       (minute_point a device_name chan_name (snd (get_chart_usage a chan (fst w) (snd w) MINUTE)))
       0 (fst (get_chart_usage a chan (fst w) (snd w) MINUTE))"

definition minute_request :: "chan_ref \<Rightarrow> time \<times> time \<Rightarrow> request" where
  "minute_request chan w = (chan, fst w, snd w, MINUTE)"




section \<open>vuegraf.py: one collection cycle of \<^verbatim>\<open>main\<close>\<close>
















section \<open>Concrete inputs\<close>

definition example_api :: "chan_ref \<Rightarrow> time \<Rightarrow> time \<Rightarrow> scale \<Rightarrow> real option list \<times> time" where
  "example_api chan start stop scale =
     (if start = 1699956840 then ([None, Some (1 / 2)], start) else ([None, None], start))"

definition example_args :: extract_args where
  "example_args =
     \<lparr> account_name = ''home'', get_chart_usage = example_api,
       db = db_at 1699913580, stop_time = 1699999997, detailed_start_time = 1699996397,
       collect_details = False, detailed_seconds_enabled = False,
       detailed_hours_enabled = False, influx_version = 1, tag_name = ''detailed'',
       tag_value_minute = ''False'', tag_value_second = ''True'', tag_value_hour = ''Hour'',
       tag_value_day = ''Day'', add_station_field = False, detailed_interval_secs = 3600,
       account_time_zone = utc, point_type = None, history_start_time = None,
       history_end_time = None \<rparr>"




definition no_record_args :: extract_args where
  "no_record_args = example_args \<lparr> db := db_empty \<rparr>"

definition balance_device :: device where
  "balance_device = Device 7 [(''Balance'', Channel 7 ''Balance'' (Some (3 / 2)) [])]"




section \<open>Properties of the window resolver\<close>

lemma second_of_bounds: "0 \<le> second_of t \<and> second_of t < 60"
  by (simp add: second_of_def)

lemma minute_trigger_3min: "T0 < T0 + 180 - (120 + second_of (T0 + 180))"
  using second_of_bounds [of "T0 + 180"] by linarith

lemma minute_window_3min: "minute_window T0 (s, T0 + 180, f) = (T0 + 60, T0 + 180, True)"
  using minute_trigger_3min [of T0] unfolding minute_window_def Let_def by simp

lemma minute_window_bounds:
  assumes "d < e - (120 + second_of e)" and "minute_window d (s, e, f) = (s', e', f')"
  shows "f' \<and> e' - s' \<le> 43200 \<and> e' - 604800 \<le> s' \<and> s' < e' \<and> e' \<le> e"
proof -
  have "d + 60 < e" using assms(1) second_of_bounds [of e] by linarith
  then show ?thesis using assms
    by (auto simp: minute_window_def Let_def split: if_splits)
qed

lemma minute_window_idle:
  assumes "\<not> d < e - (120 + second_of e)"
  shows "minute_window d (s, e, f) = (s, e, f)"
  using assms by (simp add: minute_window_def)

lemma second_window_bounds:
  assumes "d < s - 2" "s \<le> e" "second_window dis d (s, e, f) = (s', e', f')"
  shows "f' \<and> e' - s' \<le> 3600 \<and> e' - max_lookback_second dis \<le> s' \<and> s' < e' \<and> e' \<le> e"
  using assms
  by (auto simp: second_window_def Let_def max_lookback_second_def split: if_splits)

lemma second_window_idle:
  assumes "\<not> d < s - 2"
  shows "second_window dis d (s, e, f) = (s, e, f)"
  using assms by (simp add: second_window_def)

lemma resolver_minute_some:
  assumes "tmin \<noteq> tsec" "q (if asf then Some dn else None) cn tmin = Some d"
  shows "get_last_db_timestamp q dn cn tmin start stop flag asf tmin tsec dis
         = minute_window d (start, stop, flag)"
  using assms by (simp add: get_last_db_timestamp_def)

lemma resolver_second_some:
  assumes "tmin \<noteq> tsec" "q (if asf then Some dn else None) cn tsec = Some d"
  shows "get_last_db_timestamp q dn cn tsec start stop flag asf tmin tsec dis
         = second_window dis d (start, stop, flag)"
  using assms by (simp add: get_last_db_timestamp_def)

lemma resolver_minute_none:
  assumes "q (if asf then Some dn else None) cn tmin = None"
  shows "get_last_db_timestamp q dn cn tmin start stop flag asf tmin tsec dis
         = (start - 604800, start - 604800 + 43200, True)"
  using assms by (simp add: get_last_db_timestamp_def)

lemma resolver_second_none:
  assumes "tmin \<noteq> tsec" "q (if asf then Some dn else None) cn tsec = None"
  shows "get_last_db_timestamp q dn cn tsec start stop flag asf tmin tsec dis
         = (start - 10800, start - 10800 + 3600, True)"
  using assms by (simp add: get_last_db_timestamp_def)

text \<open>
  Claim C1, as amended. Whenever the resolver triggers a backfill (no record is stored, or
  the stored minute record is older than the stop time floored to the minute less two
  minutes, or the stored second record is older than the proposed start less two seconds
  and the proposed start is not after the proposed stop), the window it returns spans at
  most the single-fetch limit of the granularity (12 hours for minutes, 1 hour for seconds),
  starts no earlier than its stop less the lookback limit (7 days for minutes; 3 hours for
  seconds, 1 hour when the detail interval is at least 3600 seconds), has start \<open>\<le>\<close> stop, and
  the flag is set. When a record is stored and the guard of the code is false (the stored
  minute record is not older than the stop time floored to the minute less two minutes;
  the stored second record is not older than the proposed start less two seconds), the
  proposed window and flag come back unchanged, whatever the span. A second lookup whose
  guard holds with the proposed start after the proposed stop is covered by neither part.
\<close>

theorem window_resolver_bounds:
  assumes tags: "tag_min \<noteq> tag_sec"
    and stored: "q (if station then Some device_name else None) chan_name ptype = stored"
    and res: "get_last_db_timestamp q device_name chan_name ptype foo_start_time foo_stop_time
                foo_history_flag station tag_min tag_sec
                interval_secs = (s', e', f')"
  shows "(ptype = tag_min \<and>
            (case stored of None \<Rightarrow> True
             | Some d \<Rightarrow> d < foo_stop_time - (120 + second_of foo_stop_time))
          \<longrightarrow> f' \<and> e' - s' \<le> max_fetch_minute \<and> e' - max_lookback_minute \<le> s' \<and> s' \<le> e')
       \<and> (ptype = tag_sec \<and>
            (case stored of None \<Rightarrow> True
             | Some d \<Rightarrow> d < foo_start_time - 2 \<and> foo_start_time \<le> foo_stop_time)
          \<longrightarrow> f' \<and> e' - s' \<le> max_fetch_second
              \<and> e' - max_lookback_second interval_secs \<le> s' \<and> s' \<le> e')
       \<and> ((ptype = tag_min \<and>
             (case stored of None \<Rightarrow> False
              | Some d \<Rightarrow> \<not> d < foo_stop_time - (120 + second_of foo_stop_time)))
            \<or> (ptype = tag_sec \<and>
             (case stored of None \<Rightarrow> False | Some d \<Rightarrow> \<not> d < foo_start_time - 2))
          \<longrightarrow> (s', e', f') = (foo_start_time, foo_stop_time, foo_history_flag))"
    (is "(?M \<longrightarrow> ?MB) \<and> (?S \<longrightarrow> ?SB) \<and> (?I \<longrightarrow> ?IB)")
proof -
  let ?w = "(foo_start_time, foo_stop_time, foo_history_flag)"
  have minute: ?MB if h: ?M
  proof (cases stored)
    case None
    with h stored res have "(s', e', f') = (foo_start_time - 604800, foo_start_time - 604800 + 43200, True)"
      by (simp add: resolver_minute_none)
    then show ?thesis by (simp add: max_fetch_minute_def max_lookback_minute_def)
  next
    case (Some d)
    with h stored res tags have "minute_window d ?w = (s', e', f')"
      by (simp add: resolver_minute_some)
    moreover from h Some have "d < foo_stop_time - (120 + second_of foo_stop_time)" by simp
    ultimately show ?thesis
      using minute_window_bounds [of d foo_stop_time foo_start_time foo_history_flag s' e' f']
      by (simp add: max_fetch_minute_def max_lookback_minute_def)
  qed
  have second: ?SB if h: ?S
  proof (cases stored)
    case None
    with h stored res tags have "(s', e', f') = (foo_start_time - 10800, foo_start_time - 10800 + 3600, True)"
      by (simp add: resolver_second_none)
    then show ?thesis by (simp add: max_fetch_second_def max_lookback_second_def)
  next
    case (Some d)
    with h stored res tags have "second_window interval_secs d ?w = (s', e', f')"
      by (simp add: resolver_second_some)
    moreover from h Some have "d < foo_start_time - 2" "foo_start_time \<le> foo_stop_time" by simp_all
    ultimately show ?thesis
      using second_window_bounds [of d foo_start_time foo_stop_time interval_secs foo_history_flag s' e' f']
      by (simp add: max_fetch_second_def)
  qed
  have idle: ?IB if h: ?I
  proof -
    from h obtain d where d: "stored = Some d" by (cases stored) auto
    from h show ?thesis
    proof
      assume m: "ptype = tag_min \<and>
             (case stored of None \<Rightarrow> False
              | Some d \<Rightarrow> \<not> d < foo_stop_time - (120 + second_of foo_stop_time))"
      with d have "\<not> d < foo_stop_time - (120 + second_of foo_stop_time)" by simp
      then have "minute_window d ?w = ?w" by (rule minute_window_idle)
      with m d stored res tags show ?thesis by (simp add: resolver_minute_some)
    next
      assume m: "ptype = tag_sec \<and>
             (case stored of None \<Rightarrow> False | Some d \<Rightarrow> \<not> d < foo_start_time - 2)"
      with d have "\<not> d < foo_start_time - 2" by simp
      then have "second_window interval_secs d ?w = ?w" by (rule second_window_idle)
      with m d stored res tags show ?thesis by (simp add: resolver_second_some)
    qed
  qed
  from minute second idle show ?thesis by blast
qed


theorem window_resolver_bounds_witness:
  "get_last_db_timestamp (db_at 1000) ''dev'' ''chan'' ''False'' 2000000 2000000 False False
       ''False'' ''True'' 3600 = (1395200, 1438400, True)
   \<and> (1438400::int) - 1395200 \<le> max_fetch_minute
   \<and> (1438400::int) - max_lookback_minute \<le> 1395200
   \<and> get_last_db_timestamp (db_at 1000) ''dev'' ''chan'' ''True'' 10000 20000 True False
       ''False'' ''True'' 60 = (9200, 12800, True)
   \<and> (12800::int) - 9200 \<le> max_fetch_second
   \<and> (12800::int) - max_lookback_second 60 \<le> 9200"
proof -
  have t: "''False'' \<noteq> ''True''" by simp
  have q1: "db_at 1000 (if False then Some ''dev'' else None) ''chan'' ''False'' = Some 1000"
    by (simp add: db_at_def)
  have q2: "db_at 1000 (if False then Some ''dev'' else None) ''chan'' ''True'' = Some 1000"
    by (simp add: db_at_def)
  have r1: "get_last_db_timestamp (db_at 1000) ''dev'' ''chan'' ''False'' 2000000 2000000 False False
       ''False'' ''True'' 3600 = (1395200, 1438400, True)"
    by (simp add: get_last_db_timestamp_def db_at_def minute_window_def second_of_def)
  have r2: "get_last_db_timestamp (db_at 1000) ''dev'' ''chan'' ''True'' 10000 20000 True False
       ''False'' ''True'' 60 = (9200, 12800, True)"
    by (simp add: get_last_db_timestamp_def db_at_def second_window_def)
  have h1: "(1000::int) < 2000000 - (120 + second_of 2000000)" by (simp add: second_of_def)
  from window_resolver_bounds [OF t q1 r1] window_resolver_bounds [OF t q2 r2] r1 r2 h1
  show ?thesis by simp
qed

text \<open>
  The claim as stated fails when the stored second record is recent: the proposed window
  of a 7200-second detail interval comes back unchanged with a span of two hours.
\<close>

theorem window_resolver_span_counterexample:
  "\<not> (fst (snd (get_last_db_timestamp (db_at 1699999999) ''dev'' ''chan'' ''True''
                 1700000000 1700007200 True False ''False'' ''True'' 7200))
       - fst (get_last_db_timestamp (db_at 1699999999) ''dev'' ''chan'' ''True''
                 1700000000 1700007200 True False ''False'' ''True'' 7200)
       \<le> max_fetch_second)"
  by (simp add: get_last_db_timestamp_def db_at_def second_window_def max_fetch_second_def)

text \<open>
  Claim C7. With the last minute record stored at \<open>T0\<close> and the stop time at \<open>T0\<close> plus three
  minutes, the minute resolver reports that a backfill is needed, starts the window at
  \<open>T0\<close> plus one minute and keeps the span (two minutes) within the 12-hour fetch limit.
\<close>

theorem minute_gap_of_three_minutes:
  assumes "tag_min \<noteq> tag_sec"
    and "q (if station then Some device_name else None) chan_name tag_min = Some T0"
    and "get_last_db_timestamp q device_name chan_name tag_min foo_start_time (T0 + 180)
           foo_history_flag station tag_min tag_sec
           interval_secs = (adjusted_start, adjusted_stop, backfill_needed)"
  shows "backfill_needed \<and> adjusted_start = T0 + 60 \<and> adjusted_stop = T0 + 180
         \<and> adjusted_stop - adjusted_start \<le> max_fetch_minute"
  using assms by (simp add: resolver_minute_some minute_window_3min max_fetch_minute_def)


theorem minute_gap_of_three_minutes_witness:
  "get_last_db_timestamp (db_at 1700000017) ''dev'' ''chan'' ''False'' 1700000197 (1700000017 + 180)
       False False ''False'' ''True'' 3600 = (1700000077, 1700000197, True)
   \<and> (1700000077::int) = 1700000017 + 60
   \<and> (1700000197::int) - 1700000077 \<le> max_fetch_minute"
proof -
  have t: "''False'' \<noteq> ''True''" by simp
  have q: "db_at 1700000017 (if False then Some ''dev'' else None) ''chan'' ''False'' = Some 1700000017"
    by (simp add: db_at_def)
  have r: "get_last_db_timestamp (db_at 1700000017) ''dev'' ''chan'' ''False'' 1700000197 (1700000017 + 180)
       False False ''False'' ''True'' 3600 = (1700000077, 1700000197, True)"
    by (simp add: get_last_db_timestamp_def db_at_def minute_window_def second_of_def)
  from minute_gap_of_three_minutes [OF t q r] r show ?thesis by simp
qed

text \<open>
  Claim C4, as amended. With no stored record of a second series and a detail interval
  of 7200 seconds, the resolver returns a window of exactly one hour and sets the flag;
  the window starts three hours before the proposed start and ends two hours before the
  proposed start. The proposed stop plays no part.
\<close>

theorem second_first_fetch_no_record:
  assumes "tag_min \<noteq> tag_sec"
    and "q (if station then Some device_name else None) chan_name tag_sec = None"
    and "get_last_db_timestamp q device_name chan_name tag_sec foo_start_time foo_stop_time
           foo_history_flag station tag_min tag_sec 7200
         = (adjusted_start, adjusted_stop, backfill_needed)"
  shows "backfill_needed \<and> adjusted_stop - adjusted_start = 3600
         \<and> adjusted_start = foo_start_time - 10800 \<and> adjusted_stop = foo_start_time - 7200"
  using assms by (simp add: resolver_second_none)


theorem second_first_fetch_no_record_witness:
  "get_last_db_timestamp db_empty ''dev'' ''chan'' ''True'' 1700000000 1700007200 True False
       ''False'' ''True'' 7200 = (1699989200, 1699992800, True)
   \<and> (1699992800::int) - 1699989200 = 3600
   \<and> (1699989200::int) = 1700000000 - 10800 \<and> (1699992800::int) = 1700000000 - 7200"
proof -
  have t: "''False'' \<noteq> ''True''" by simp
  have q: "db_empty (if False then Some ''dev'' else None) ''chan'' ''True'' = None"
    by (simp add: db_empty_def)
  have r: "get_last_db_timestamp db_empty ''dev'' ''chan'' ''True'' 1700000000 1700007200 True False
       ''False'' ''True'' 7200 = (1699989200, 1699992800, True)"
    by (simp add: get_last_db_timestamp_def db_empty_def)
  from second_first_fetch_no_record [OF t q r] r show ?thesis by simp
qed

text \<open>
  The claim as stated fails: with the proposed window running from 1700000000 to
  1700007200 the adjusted stop is 1699992800, not the proposed stop.
\<close>

theorem second_first_fetch_stop_counterexample:
  "\<not> (fst (snd (get_last_db_timestamp db_empty ''dev'' ''chan'' ''True'' 1700000000 1700007200
                  True False ''False'' ''True'' 7200)) = 1700007200)"
  by (simp add: get_last_db_timestamp_def db_empty_def)

section \<open>Properties of the history settings\<close>

text \<open>
  Claim C10. The number of history days used is the minimum of the requested days and
  \<^verbatim>\<open>maxHistoryDays\<close> (720 when the configuration has no such key); history mode is
  entered exactly when that minimum is positive; a request above the cap is reduced to
  the cap. The computation has no failing branch.
\<close>

theorem history_days_capped:
  "history_days cfg args_historydays
     = min args_historydays (case cfg ''maxHistoryDays'' of None \<Rightarrow> 720 | Some m \<Rightarrow> m)
   \<and> (history cfg args_historydays
        \<longleftrightarrow> 0 < min args_historydays (case cfg ''maxHistoryDays'' of None \<Rightarrow> 720 | Some m \<Rightarrow> m))
   \<and> (max_history_days cfg < args_historydays
        \<longrightarrow> history_days cfg args_historydays = max_history_days cfg)"
  by (simp add: history_days_def history_def max_history_days_def get_config_value_def
           split: option.splits)


theorem history_days_capped_witness:
  "max_history_days Map.empty < 1000 \<and> history_days Map.empty 1000 = 720
   \<and> history Map.empty 1000
   \<and> history_days [''maxHistoryDays'' \<mapsto> 30] 45 = 30 \<and> \<not> history Map.empty 0"
  using history_days_capped [of Map.empty 1000] history_days_capped [of "[''maxHistoryDays'' \<mapsto> 30]" 45]
    history_days_capped [of Map.empty 0]
  by (simp add: max_history_days_def get_config_value_def)


section \<open>Properties of the historical backfill loop\<close>

lemma replace_midnight_div: "replace_midnight t = 86400 * (t div 86400)"
  unfolding replace_midnight_def by (simp add: minus_mod_eq_mult_div)

lemma replace_235959_div: "replace_235959 t = 86400 * (t div 86400) + 86399"
  unfolding replace_235959_def by (simp add: minus_mod_eq_mult_div)

lemma next_midnight: "replace_midnight (replace_235959 t + 86400) = replace_235959 t + 1"
proof -
  have "(86400 * (t div 86400) + 86399 + 86400) div 86400 = t div 86400 + 1 + (86399::int) div 86400"
    by (simp add: algebra_simps)
  then show ?thesis
    unfolding replace_midnight_div replace_235959_div by simp
qed

lemma replace_235959_ge: "t \<le> replace_235959 t"
proof -
  have "t mod 86400 < 86400" by simp
  then show ?thesis unfolding replace_235959_def by linarith
qed

lemma replace_235959_mono: "a \<le> b \<Longrightarrow> replace_235959 a \<le> replace_235959 b"
  unfolding replace_235959_div using zdiv_mono1 [of a b 86400] by simp

lemma replace_midnight_le: "replace_midnight t \<le> t"
proof -
  have "0 \<le> t mod 86400" by simp
  then show ?thesis unfolding replace_midnight_def by linarith
qed

lemma replace_235959_midnight: "replace_235959 t = replace_midnight t + 86399"
  by (simp add: replace_235959_def replace_midnight_def)

lemma replace_235959_add_days: "replace_235959 (t + 86400 * k) = replace_235959 t + 86400 * k"
  unfolding replace_235959_def by simp

lemma replace_235959_of_midnight: "t mod 86400 = 0 \<Longrightarrow> replace_235959 t = t + 86399"
  unfolding replace_235959_def by simp

lemma midnight_after: "(replace_235959 t + 1) mod 86400 = 0"
proof -
  have "replace_235959 t + 1 = 86400 * (t div 86400 + 1)"
    unfolding replace_235959_div by simp
  then show ?thesis by (metis mod_mult_self1_is_0)
qed

lemma replace_235959_mod: "replace_235959 t mod 86400 = 86399"
proof -
  have "(86400 * (t div 86400) + 86399) mod 86400 = (86399::int) mod 86400"
    by (simp only: mod_mult_self4)
  then show ?thesis unfolding replace_235959_div by simp
qed

text \<open>if the next midnight is past b and a <= b then same day end\<close>
lemma same_day_end:
  assumes "a \<le> b" "b < replace_235959 a + 1"
  shows "replace_235959 a = replace_235959 b"
proof -
  have "b div 86400 \<le> a div 86400"
  proof -
    define j k where "j = b div 86400" and "k = a div 86400"
    have "b < 86400 * k + 86400"
      using assms(2) unfolding replace_235959_div k_def by simp
    moreover have "86400 * j \<le> b"
      using replace_midnight_le [of b] unfolding replace_midnight_div j_def .
    ultimately have "j \<le> k" by linarith
    then show ?thesis unfolding j_def k_def .
  qed
  moreover have "a div 86400 \<le> b div 86400" using assms(1) by (simp add: zdiv_mono1)
  ultimately have "a div 86400 = b div 86400" by linarith
  then show ?thesis unfolding replace_235959_div by simp
qed

declare history_windows.simps [simp del]

lemma history_windows_step:
  assumes "hs \<le> sth"
  shows "history_windows hs sth = (hs, history_end hs sth) # history_windows (history_end hs sth + 1) sth"
  using assms
  by (subst history_windows.simps) (simp add: Let_def next_midnight history_end_def)

lemma history_windows_done:
  assumes "\<not> hs \<le> sth"
  shows "history_windows hs sth = []"
  using assms by (subst history_windows.simps) simp

lemma history_windows_induct [consumes 0, case_names step]:
  assumes "\<And>hs sth. (hs \<le> sth \<Longrightarrow> P (history_end hs sth + 1) sth) \<Longrightarrow> P hs sth"
  shows "P hs sth"
proof (induction hs sth rule: history_windows.induct)
  case (1 hs sth)
  show ?case
  proof (rule assms)
    assume "hs \<le> sth"
    then show "P (history_end hs sth + 1) sth"
      using "1.IH" [OF _ refl] by (simp add: next_midnight history_end_def)
  qed
qed

lemma history_end_ge: "hs \<le> sth \<Longrightarrow> hs \<le> history_end hs sth"
  unfolding history_end_def
  using replace_235959_ge [of "min (hs + 20 * 86400) sth"] by simp

lemma history_end_le: "history_end hs sth \<le> replace_235959 sth"
  unfolding history_end_def by (rule replace_235959_mono) simp

lemma history_end_mod: "history_end hs sth mod 86400 = 86399"
  unfolding history_end_def by (rule replace_235959_mod)

lemma history_end_span:
  assumes "hs mod 86400 = 0"
  shows "history_end hs sth \<le> hs + 21 * 86400 - 1"
proof -
  have "replace_235959 (min (hs + 20 * 86400) sth) \<le> replace_235959 (hs + 86400 * 20)"
    by (rule replace_235959_mono) simp
  also have "\<dots> = replace_235959 hs + 86400 * 20" by (rule replace_235959_add_days)
  also have "\<dots> = hs + 86399 + 86400 * 20" using assms by (simp add: replace_235959_of_midnight)
  finally show ?thesis unfolding history_end_def by simp
qed

lemma history_end_last:
  assumes "hs \<le> sth" "\<not> history_end hs sth + 1 \<le> sth"
  shows "history_end hs sth = replace_235959 sth"
proof -
  define m where "m = min (hs + 20 * 86400) sth"
  have "m \<le> sth" by (simp add: m_def)
  moreover have "sth < replace_235959 m + 1" using assms(2) by (simp add: history_end_def m_def)
  ultimately have "replace_235959 m = replace_235959 sth" by (rule same_day_end)
  then show ?thesis by (simp add: history_end_def m_def)
qed

lemma history_windows_outside:
  "t < hs \<Longrightarrow> filter (\<lambda>w. fst w \<le> t \<and> t \<le> snd w) (history_windows hs sth) = []"
proof (induction hs sth rule: history_windows_induct)
  case (step hs sth)
  show ?case
  proof (cases "hs \<le> sth")
    case True
    have "t < history_end hs sth + 1" using step.prems history_end_ge [OF True] by linarith
    with step.IH [OF True] step.prems show ?thesis
      by (simp add: history_windows_step [OF True])
  next
    case False
    then show ?thesis by (simp add: history_windows_done)
  qed
qed

lemma history_windows_cover:
  "length (filter (\<lambda>w. fst w \<le> t \<and> t \<le> snd w) (history_windows hs sth))
     = (if hs \<le> sth \<and> hs \<le> t \<and> t \<le> replace_235959 sth then 1 else 0)"
proof (induction hs sth rule: history_windows_induct)
  case (step hs sth)
  show ?case
  proof (cases "hs \<le> sth")
    case False
    then show ?thesis by (simp add: history_windows_done)
  next
    case True
    let ?e = "history_end hs sth"
    note unfold = history_windows_step [OF True]
    show ?thesis
    proof (cases "hs \<le> t \<and> t \<le> ?e")
      case inside: True
      then have "t < ?e + 1" by simp
      then have "filter (\<lambda>w. fst w \<le> t \<and> t \<le> snd w) (history_windows (?e + 1) sth) = []"
        by (rule history_windows_outside)
      moreover have "t \<le> replace_235959 sth" using inside history_end_le [of hs sth] by linarith
      ultimately show ?thesis using inside True by (simp add: unfold)
    next
      case outside: False
      show ?thesis
      proof (cases "?e + 1 \<le> sth")
        case more: True
        have "(hs \<le> t \<and> t \<le> replace_235959 sth) = (?e + 1 \<le> t \<and> t \<le> replace_235959 sth)"
          using outside history_end_ge [OF True] by linarith
        then have "(if ?e + 1 \<le> sth \<and> ?e + 1 \<le> t \<and> t \<le> replace_235959 sth then 1 else 0)
                 = (if hs \<le> sth \<and> hs \<le> t \<and> t \<le> replace_235959 sth then 1 else (0::nat))"
          using True more by simp
        moreover have "filter (\<lambda>w. fst w \<le> t \<and> t \<le> snd w) (history_windows hs sth)
                 = filter (\<lambda>w. fst w \<le> t \<and> t \<le> snd w) (history_windows (?e + 1) sth)"
          using outside by (simp add: unfold)
        ultimately show ?thesis using step.IH [OF True] by (simp only:)
      next
        case last: False
        have "?e = replace_235959 sth" using True last by (rule history_end_last)
        with outside True last show ?thesis
          by (simp add: unfold history_windows_done)
      qed
    qed
  qed
qed

lemma history_windows_shape:
  "hs mod 86400 = 0 \<Longrightarrow>
   list_all (\<lambda>w. fst w mod 86400 = 0 \<and> snd w mod 86400 = 86399 \<and> fst w \<le> snd w
                 \<and> snd w - fst w \<le> 21 * 86400 - 1) (history_windows hs sth)"
proof (induction hs sth rule: history_windows_induct)
  case (step hs sth)
  show ?case
  proof (cases "hs \<le> sth")
    case False
    then show ?thesis by (simp add: history_windows_done)
  next
    case True
    have "(history_end hs sth + 1) mod 86400 = 0"
      unfolding history_end_def by (rule midnight_after)
    with step.IH [OF True] have "list_all (\<lambda>w. fst w mod 86400 = 0 \<and> snd w mod 86400 = 86399 \<and> fst w \<le> snd w
                 \<and> snd w - fst w \<le> 21 * 86400 - 1) (history_windows (history_end hs sth + 1) sth)" by simp
    moreover have "history_end hs sth - hs \<le> 21 * 86400 - 1"
      using history_end_span [OF step.prems, of sth] by linarith
    ultimately show ?thesis
      using step.prems history_end_mod [of hs sth] history_end_ge [OF True]
      by (simp add: history_windows_step [OF True])
  qed
qed

lemma history_windows_hd:
  "hs \<le> sth \<Longrightarrow> history_windows hs sth \<noteq> [] \<and> fst (hd (history_windows hs sth)) = hs"
  by (simp add: history_windows_step)

lemma history_windows_chain:
  "successively (\<lambda>w w'. fst w' = snd w + 1) (history_windows hs sth)"
proof (induction hs sth rule: history_windows_induct)
  case (step hs sth)
  show ?case
  proof (cases "hs \<le> sth")
    case False
    then show ?thesis by (simp add: history_windows_done)
  next
    case True
    show ?thesis
    proof (cases "history_end hs sth + 1 \<le> sth")
      case more: True
      with step.IH [OF True] history_windows_hd [OF more] show ?thesis
        by (simp add: history_windows_step [OF True] successively_Cons)
    next
      case False
      then show ?thesis by (simp add: history_windows_step [OF True] history_windows_done)
    qed
  qed
qed

lemma history_windows_last:
  "hs \<le> sth \<Longrightarrow> snd (last (history_windows hs sth)) = replace_235959 sth"
proof (induction hs sth rule: history_windows_induct)
  case (step hs sth)
  note True = step.prems
  show ?case
  proof (cases "history_end hs sth + 1 \<le> sth")
    case more: True
    with step.IH [OF True] history_windows_hd [OF more] show ?thesis
      by (simp add: history_windows_step [OF True])
  next
    case False
    with True have "history_end hs sth = replace_235959 sth" by (rule history_end_last)
    with False show ?thesis by (simp add: history_windows_step [OF True] history_windows_done)
  qed
qed

lemma history_batches_example:
  "history_batches utc_minus_5 30 1700000000
     = [(1697328000, 1699142399), (1699142400, 1700006399)]"
  by (simp add: history_batches_def astimezone_def utc_minus_5_def replace_midnight_def
        replace_235959_def history_windows.simps)

text \<open>
  Claim C3, as amended. For a positive number of history days, the loop (run to
  completion) yields a non-empty sequence of sub-windows, in wall-clock seconds of the
  account's zone. The first starts at local midnight of the stop time less the history
  days. Every sub-window starts at local midnight, ends at 23:59:59 local time and spans
  at most 21 days less one second; each next sub-window starts one second after the
  previous one ends. The last sub-window ends at 23:59:59 of the stop time's local day.
  Every second from the first start to that end lies in exactly one sub-window, and no
  other second lies in any.
\<close>

theorem history_batches_partition:
  assumes "0 < days"
  shows "history_batches tz days stop \<noteq> []
       \<and> fst (hd (history_batches tz days stop))
           = replace_midnight (astimezone tz stop - days * 86400)
       \<and> snd (last (history_batches tz days stop))
           = replace_235959 (astimezone tz stop)
       \<and> list_all (\<lambda>w. fst w mod 86400 = 0 \<and> snd w mod 86400 = 86399 \<and> fst w \<le> snd w
                        \<and> snd w - fst w \<le> 21 * 86400 - 1)
            (history_batches tz days stop)
       \<and> successively (\<lambda>w w'. fst w' = snd w + 1) (history_batches tz days stop)
       \<and> (\<forall>t. length (filter (\<lambda>w. fst w \<le> t \<and> t \<le> snd w)
                          (history_batches tz days stop))
                = (if replace_midnight (astimezone tz stop - days * 86400) \<le> t
                      \<and> t \<le> replace_235959 (astimezone tz stop) then 1 else 0))"
proof -
  define sth where "sth = astimezone tz stop"
  define hs where "hs = replace_midnight (sth - days * 86400)"
  have ws: "history_batches tz days stop = history_windows hs sth"
    by (simp add: history_batches_def Let_def sth_def hs_def)
  have "hs \<le> sth - days * 86400" unfolding hs_def by (rule replace_midnight_le)
  with assms have le: "hs \<le> sth" by simp
  have mid: "hs mod 86400 = 0"
    unfolding hs_def replace_midnight_div by (rule mod_mult_self1_is_0)
  show ?thesis
    unfolding ws sth_def [symmetric] hs_def [symmetric]
    using history_windows_hd [OF le] history_windows_last [OF le]
      history_windows_shape [OF mid, of sth] history_windows_chain [of hs sth]
      history_windows_cover [of _ hs sth] le
    by simp
qed

theorem history_batches_partition_witness:
  "history_batches utc_minus_5 30 1700000000
     = [(1697328000, 1699142399), (1699142400, 1700006399)]
   \<and> replace_midnight (astimezone utc_minus_5 1700000000 - 30 * 86400) = 1697328000
   \<and> replace_235959 (astimezone utc_minus_5 1700000000) = 1700006399
   \<and> successively (\<lambda>w w'. fst w' = snd w + 1) (history_batches utc_minus_5 30 1700000000)"
proof -
  have pos: "(0::int) < 30" by simp
  from history_batches_partition [OF pos, of utc_minus_5 1700000000]
  show ?thesis by (simp add: history_batches_example)
qed

text \<open>
  The claim as stated fails for 30 days up to 1700000000: the first sub-window spans
  20 days 23:59:59 hours, more than 20 days, and the last one ends at 23:59:59 of the stop
  day, after the stop time.
\<close>

theorem history_batches_twenty_days_counterexample:
  "\<not> list_all (\<lambda>w. snd w - fst w \<le> 20 * 86400) (history_batches utc_minus_5 30 1700000000)
   \<and> snd (last (history_batches utc_minus_5 30 1700000000)) \<noteq> astimezone utc_minus_5 1700000000"
  by (simp add: history_batches_example astimezone_def utc_minus_5_def)

section \<open>Properties of the sample loops\<close>


lemma usage_points_all_none:
  "list_all (\<lambda>kwh_usage. kwh_usage = None) usage \<Longrightarrow> usage_points mk index usage = []"
  by (induction usage arbitrary: index) auto













section \<open>Properties of the walker\<close>

text \<open>
  The lookup of line 216 fails for every usage device, so every call of the walker is left
  by \<^verbatim>\<open>AttributeError\<close> before it reaches a channel, with the output list and the request
  log as they were.
\<close>

lemma extract_data_points_raises:
  "extract_data_points a d buf = Some (Raised AttributeError buf)"
  by (cases d) (simp add: getattr_lookup_device_name_def)

text \<open>
  The body of the channel loop, taken by itself, appends for an excluded channel at most
  one point and sends no chart request.
\<close>

lemma minute_step_excluded:
  assumes "chan_num \<in> set excluded_detail_channel_numbers"
  shows "minute_step a device_name chan_name chan_num chan kwh_usage buf
         = Some (fst buf @ excluded_points a device_name chan_name kwh_usage, snd buf)"
  using assms
  by (simp add: minute_step_def excluded_points_def mult.commute
           split: option.splits prod.splits)

lemma channel_body_excluded:
  assumes "chan_num \<in> set excluded_detail_channel_numbers"
  shows "channel_body a device_name chan_name chan_num chan kwh_usage buf
         = Some (fst buf @ excluded_points a device_name chan_name kwh_usage, snd buf)"
  using assms by (simp add: channel_body_def minute_step_excluded)


text \<open>
  Claim C8, evaluated on the code: a live pass (no point type) over a device whose only
  channel is \<^verbatim>\<open>Balance\<close>, an excluded channel, with a usage value, and with no minute
  record stored. The claim expects exactly one minute point; the walker is left by
  \<^verbatim>\<open>AttributeError\<close> at line 216 and appends nothing.
\<close>

theorem aggregate_live_point_raises:
  "''Balance'' \<in> set excluded_detail_channel_numbers
   \<and> point_type no_record_args = None
   \<and> db no_record_args None ''Balance'' (tag_value_minute no_record_args) = None
   \<and> balance_device = Device 7 [(''Balance'', Channel 7 ''Balance'' (Some (3 / 2)) [])]
   \<and> extract_data_points no_record_args balance_device ([], [])
       = Some (Raised AttributeError ([], []))"
  by (simp add: extract_data_points_raises excluded_detail_channel_numbers_def
        no_record_args_def example_args_def db_empty_def balance_device_def)

section \<open>Properties of the catch-up loop\<close>

lemma fetched_points_none:
  "no_samples a chan w \<Longrightarrow> fetched_points a device_name chan_name chan w = []"
  unfolding no_samples_def fetched_points_def by (rule usage_points_all_none)

lemma minute_catch_up_exit:
  assumes "\<not> no_samples a chan (s, e) \<or> \<not> e < replace_second0 (stop_time a)"
  shows "minute_catch_up a device_name chan_name chan s e buf
         = Some (fst buf @ fetched_points a device_name chan_name chan (s, e),
                 snd buf @ [minute_request chan (s, e)])"
  using assms
  by (subst minute_catch_up.simps)
     (auto simp: no_samples_def fetched_points_def minute_request_def Let_def
           split: prod.splits)

lemma minute_catch_up_retry:
  assumes "no_samples a chan (s, e)" "e < replace_second0 (stop_time a)"
  shows "minute_catch_up a device_name chan_name chan s e buf
         = minute_catch_up a device_name chan_name chan
             (fst (advance_window (replace_second0 (stop_time a)) (s, e)))
             (snd (advance_window (replace_second0 (stop_time a)) (s, e)))
             (fst buf, snd buf @ [minute_request chan (s, e)])"
proof -
  have "fetched_points a device_name chan_name chan (s, e) = []"
    using assms(1) by (rule fetched_points_none)
  then show ?thesis
    using assms
    by (subst minute_catch_up.simps)
       (auto simp: no_samples_def fetched_points_def minute_request_def advance_window_def
             Let_def split: prod.splits)
qed

lemma advance_window_progress:
  assumes "s < e" "e < g"
  shows "fst (advance_window g (s, e)) = e"
    and "e < snd (advance_window g (s, e))"
    and "snd (advance_window g (s, e)) \<le> g"
  using assms by (simp_all add: advance_window_def)

lemma minute_catch_up_run:
  assumes "s < e"
  shows "\<exists>ws. minute_catch_up a device_name chan_name chan s e buf
              = Some (fst buf @ fetched_points a device_name chan_name chan (last ws),
                      snd buf @ map (minute_request chan) ws)
            \<and> ws \<noteq> [] \<and> hd ws = (s, e)
            \<and> successively
                 (\<lambda>w w'. no_samples a chan w \<and> snd w < replace_second0 (stop_time a)
                          \<and> w' = advance_window (replace_second0 (stop_time a)) w) ws
            \<and> (\<not> no_samples a chan (last ws) \<or> replace_second0 (stop_time a) \<le> snd (last ws))"
  using assms
proof (induction "nat (replace_second0 (stop_time a) - e)" arbitrary: s e buf rule: less_induct)
  case less
  let ?g = "replace_second0 (stop_time a)"
  let ?step = "\<lambda>w w'. no_samples a chan w \<and> snd w < ?g \<and> w' = advance_window ?g w"
  show ?case
  proof (cases "no_samples a chan (s, e) \<and> e < ?g")
    case False
    then have "\<not> no_samples a chan (s, e) \<or> \<not> e < ?g" by simp
    then have "minute_catch_up a device_name chan_name chan s e buf
         = Some (fst buf @ fetched_points a device_name chan_name chan (s, e),
                 snd buf @ [minute_request chan (s, e)])"
      by (rule minute_catch_up_exit)
    with False show ?thesis by (intro exI [of _ "[(s, e)]"]) auto
  next
    case True
    define s' e' where "s' = fst (advance_window ?g (s, e))"
      and "e' = snd (advance_window ?g (s, e))"
    have w': "advance_window ?g (s, e) = (s', e')" by (simp add: s'_def e'_def)
    have s': "s' = e" and e': "e < e'" "e' \<le> ?g"
      using advance_window_progress [OF less.prems, of ?g] True by (simp_all add: s'_def e'_def)
    have smaller: "nat (?g - e') < nat (?g - e)" using e' True by linarith
    have "s' < e'" using s' e' by simp
    from less.hyps [OF smaller this, of "(fst buf, snd buf @ [minute_request chan (s, e)])"]
    obtain ws where run: "minute_catch_up a device_name chan_name chan s' e'
                (fst buf, snd buf @ [minute_request chan (s, e)])
              = Some (fst buf @ fetched_points a device_name chan_name chan (last ws),
                      (snd buf @ [minute_request chan (s, e)]) @ map (minute_request chan) ws)"
      and ne: "ws \<noteq> []" and hd: "hd ws = (s', e')"
      and chain: "successively ?step ws"
      and exit: "\<not> no_samples a chan (last ws) \<or> ?g \<le> snd (last ws)"
      by auto
    have "minute_catch_up a device_name chan_name chan s e buf
          = minute_catch_up a device_name chan_name chan s' e'
              (fst buf, snd buf @ [minute_request chan (s, e)])"
      unfolding s'_def e'_def using True by (intro minute_catch_up_retry) simp_all
    with run have result: "minute_catch_up a device_name chan_name chan s e buf
          = Some (fst buf @ fetched_points a device_name chan_name chan (last ((s, e) # ws)),
                  snd buf @ map (minute_request chan) ((s, e) # ws))"
      using ne by simp
    have "successively ?step ((s, e) # ws)"
      using True chain ne hd w' by (simp add: successively_Cons)
    with result exit ne show ?thesis
      by (intro exI [of _ "(s, e) # ws"]) simp
  qed
qed

lemma resolved_minute_window:
  assumes "get_last_db_timestamp q dn cn ptype st st False asf tmin tsec dis = (s, e, True)"
  shows "s < e"
proof (cases "q (if asf then Some dn else None) cn ptype")
  case None
  with assms show ?thesis
    by (auto simp: get_last_db_timestamp_def split: if_splits)
next
  case (Some d)
  obtain s1 e1 f1 where w1: "(if ptype = tmin then minute_window d (st, st, False)
                              else (st, st, False)) = (s1, e1, f1)"
    using prod_cases3 by blast
  have le1: "s1 \<le> e1"
  proof (cases "ptype = tmin \<and> d < st - (120 + second_of st)")
    case True
    with w1 minute_window_bounds [of d st st False s1 e1 f1] show ?thesis by simp
  next
    case False
    then have "(s1, e1, f1) = (st, st, False)"
      using w1 minute_window_idle [of d st st False] by (auto split: if_splits)
    then show ?thesis by simp
  qed
  have f1: "f1 \<Longrightarrow> s1 < e1"
  proof (cases "ptype = tmin \<and> d < st - (120 + second_of st)")
    case True
    with w1 minute_window_bounds [of d st st False s1 e1 f1] show ?thesis by simp
  next
    case False
    then have "(s1, e1, f1) = (st, st, False)"
      using w1 minute_window_idle [of d st st False] by (auto split: if_splits)
    moreover assume f1
    ultimately show ?thesis by simp
  qed
  have "get_last_db_timestamp q dn cn ptype st st False asf tmin tsec dis
        = (let w1 = (if ptype = tmin then minute_window d (st, st, False) else (st, st, False))
           in if ptype = tsec then second_window dis d w1 else w1)"
    using Some by (simp add: get_last_db_timestamp_def Let_def)
  then have res: "(if ptype = tsec then second_window dis d (s1, e1, f1) else (s1, e1, f1))
                  = (s, e, True)"
    unfolding w1 Let_def using assms by simp
  show ?thesis
  proof (cases "ptype = tsec \<and> d < s1 - 2")
    case True
    with res second_window_bounds [OF _ le1, of d dis f1 s e True] show ?thesis by simp
  next
    case False
    then have "(s, e, True) = (s1, e1, f1)"
      using res second_window_idle [of d s1 dis e1 f1] by (auto split: if_splits)
    with f1 show ?thesis by simp
  qed
qed

text \<open>
  Claim C9. For every window the resolver returns with the backfill flag for a live
  minute lookup, the catch-up loop returns. The windows it fetches start with the
  resolved one; every fetched window but the last has no sample and stops before the
  stop time floored to the minute, and is followed by the window moved forward by its
  own span with both ends capped at that floored stop time; the last fetched window
  has a sample or stops at or after the floored stop time. The points appended are those
  of the last fetch (none when the device is offline).
\<close>

theorem minute_catch_up_terminates:
  assumes "get_last_db_timestamp (db a) device_name chan_name (tag_value_minute a)
             (stop_time a) (stop_time a) False (add_station_field a)
             (tag_value_minute a) (tag_value_second a) (detailed_interval_secs a)
           = (s, e, True)"
  shows "\<exists>ws. minute_catch_up a device_name chan_name chan s e (points, requests)
              = Some (points @ fetched_points a device_name chan_name chan (last ws),
                      requests @ map (minute_request chan) ws)
            \<and> ws \<noteq> [] \<and> hd ws = (s, e)
            \<and> successively
                 (\<lambda>w w'. no_samples a chan w \<and> snd w < replace_second0 (stop_time a)
                          \<and> w' = advance_window (replace_second0 (stop_time a)) w) ws
            \<and> (\<not> no_samples a chan (last ws) \<or> replace_second0 (stop_time a) \<le> snd (last ws))"
proof -
  from assms have "s < e" by (rule resolved_minute_window)
  from minute_catch_up_run [OF this, of a device_name chan_name chan "(points, requests)"]
  show ?thesis by simp
qed

lemma example_resolved:
  "get_last_db_timestamp (db example_args) ''panel'' ''1'' (tag_value_minute example_args)
     (stop_time example_args) (stop_time example_args) False (add_station_field example_args)
     (tag_value_minute example_args) (tag_value_second example_args)
     (detailed_interval_secs example_args)
   = (1699913640, 1699956840, True)"
  by (simp add: example_args_def get_last_db_timestamp_def db_at_def minute_window_def
        second_of_def)

lemma example_catch_up:
  "minute_catch_up example_args ''panel'' ''1'' (7, ''1'') 1699913640 1699956840 ([], [])
   = Some ([create_data_point ''home'' ''panel'' ''1'' 30000 (Some 1699956900) ''False'' 1
              ''detailed'' False],
           [((7, ''1''), 1699913640, 1699956840, MINUTE),
            ((7, ''1''), 1699956840, 1699999980, MINUTE)])"
proof -
  have g: "replace_second0 (stop_time example_args) = 1699999980"
    by (simp add: example_args_def replace_second0_def)
  have api: "get_chart_usage example_args = example_api" by (simp add: example_args_def)
  have first: "no_samples example_args (7, ''1'') (1699913640, 1699956840)"
    by (simp add: no_samples_def api example_api_def)
  have second: "\<not> no_samples example_args (7, ''1'') (1699956840, 1699999980)"
    by (simp add: no_samples_def api example_api_def)
  have "minute_catch_up example_args ''panel'' ''1'' (7, ''1'') 1699913640 1699956840 ([], [])
        = minute_catch_up example_args ''panel'' ''1'' (7, ''1'') 1699956840 1699999980
            ([], [minute_request (7, ''1'') (1699913640, 1699956840)])"
    using minute_catch_up_retry [OF first, of "''panel''" "''1''" "([], [])"]
    by (simp add: g advance_window_def)
  also have "\<dots> = Some (fetched_points example_args ''panel'' ''1'' (7, ''1'')
                          (1699956840, 1699999980),
                        [minute_request (7, ''1'') (1699913640, 1699956840),
                         minute_request (7, ''1'') (1699956840, 1699999980)])"
    using second by (subst minute_catch_up_exit) simp_all
  finally show ?thesis
    by (simp add: fetched_points_def api example_api_def minute_point_def new_point_def
          minute_request_def replace_second0_def example_args_def)
qed

theorem minute_catch_up_terminates_witness:
  "get_last_db_timestamp (db example_args) ''panel'' ''1'' (tag_value_minute example_args)
     (stop_time example_args) (stop_time example_args) False (add_station_field example_args)
     (tag_value_minute example_args) (tag_value_second example_args)
     (detailed_interval_secs example_args)
   = (1699913640, 1699956840, True)
   \<and> minute_catch_up example_args ''panel'' ''1'' (7, ''1'') 1699913640 1699956840 ([], [])
     = Some ([create_data_point ''home'' ''panel'' ''1'' 30000 (Some 1699956900) ''False'' 1
                ''detailed'' False],
             [((7, ''1''), 1699913640, 1699956840, MINUTE),
              ((7, ''1''), 1699956840, 1699999980, MINUTE)])"
  using minute_catch_up_terminates [OF example_resolved, of "(7, ''1'')" "[]" "[]"]
    example_resolved example_catch_up
  by simp

text \<open>
  With it the minute step and the body of the channel loop return for every channel,
  whatever the sink and the API answer.
\<close>

lemma minute_step_returns:
  "\<exists>buf'. minute_step a device_name chan_name chan_num chan kwh_usage buf = Some buf'"
proof (cases kwh_usage)
  case None
  then show ?thesis by (simp add: minute_step_def)
next
  case (Some kwh)
  show ?thesis
  proof (cases "point_type a")
    case (Some pt)
    with \<open>kwh_usage = Some kwh\<close> show ?thesis by (simp add: minute_step_def)
  next
    case None
    obtain s e f where w: "get_last_db_timestamp (db a) device_name chan_name (tag_value_minute a)
             (stop_time a) (stop_time a) False (add_station_field a)
             (tag_value_minute a) (tag_value_second a) (detailed_interval_secs a) = (s, e, f)"
      using prod_cases3 by blast
    show ?thesis
    proof (cases "\<not> f \<or> chan_num \<in> set excluded_detail_channel_numbers
                  \<or> history_start_time a \<noteq> None")
      case True
      with None w \<open>kwh_usage = Some kwh\<close> show ?thesis
        by (auto simp: minute_step_def)
    next
      case False
      then have f by simp
      with w have "get_last_db_timestamp (db a) device_name chan_name (tag_value_minute a)
             (stop_time a) (stop_time a) False (add_station_field a)
             (tag_value_minute a) (tag_value_second a) (detailed_interval_secs a) = (s, e, True)"
        by simp
      then have "s < e" by (rule resolved_minute_window)
      from minute_catch_up_run [OF this, of a device_name chan_name chan buf]
      obtain r where "minute_catch_up a device_name chan_name chan s e buf = Some r" by blast
      with False None w \<open>kwh_usage = Some kwh\<close> show ?thesis
        by (simp add: minute_step_def)
    qed
  qed
qed

lemma channel_body_returns:
  "\<exists>buf'. channel_body a device_name chan_name chan_num chan kwh_usage buf = Some buf'"
proof -
  obtain buf1 where "minute_step a device_name chan_name chan_num chan kwh_usage buf = Some buf1"
    using minute_step_returns by blast
  then show ?thesis by (simp add: channel_body_def)
qed

section \<open>The sample loops of the walker\<close>




section \<open>The buffer across accounts\<close>
















end
